theory Spec2Isabelle
  imports Complex_Main
begin

section \<open>Python strings\<close>

text \<open>
  Strings are lists of characters. The string methods the job manager and the easy applier
  call are written out for ASCII text: \<open>str.lower\<close> maps \<open>A\<close>..\<open>Z\<close> to
  \<open>a\<close>..\<open>z\<close> and leaves every other character alone, \<open>str.strip\<close> removes the
  ASCII whitespace of Python (codes 9 to 13, 28 to 32) from both ends, \<open>str.split(' ')\<close>
  cuts at every single space (so two adjacent spaces give an empty word), and
  \<open>a in b\<close> on strings is the search for a contiguous occurrence.
\<close>

definition lower_char :: "char \<Rightarrow> char" where
  "lower_char c =
     (case map_of (zip ''ABCDEFGHIJKLMNOPQRSTUVWXYZ'' ''abcdefghijklmnopqrstuvwxyz'') c of
        None \<Rightarrow> c
      | Some l \<Rightarrow> l)"

definition lower :: "string \<Rightarrow> string" where
  "lower s = map lower_char s"

definition is_space :: "char \<Rightarrow> bool" where
  "is_space c =
     (c \<in> set [CHR 0x09, CHR 0x0A, CHR 0x0B, CHR 0x0C, CHR 0x0D,
                CHR 0x1C, CHR 0x1D, CHR 0x1E, CHR 0x1F, CHR 0x20])"

definition strip :: "string \<Rightarrow> string" where
  "strip s = rev (dropWhile is_space (rev (dropWhile is_space s)))"

fun split_on :: "char \<Rightarrow> string \<Rightarrow> string list" where
  "split_on sep [] = [[]]"
| "split_on sep (c # cs) =
     (if c = sep then [] # split_on sep cs
      else (let r = split_on sep cs in (c # hd r) # tl r))"

fun starts_with :: "string \<Rightarrow> string \<Rightarrow> bool" where
  "starts_with [] s = True"
| "starts_with (p # ps) [] = False"
| "starts_with (p # ps) (c # cs) = (p = c \<and> starts_with ps cs)"

fun str_in :: "string \<Rightarrow> string \<Rightarrow> bool" where
  "str_in needle [] = (needle = [])"
| "str_in needle (c # cs) = (starts_with needle (c # cs) \<or> str_in needle cs)"

section \<open>Job\<close>

text \<open>
  The dataclass \<open>Job\<close> of \<open>job.py\<close>. The constructor \<open>Job(title, company, location,
  link, apply_method)\<close> runs \<open>_validate_non_empty_fields\<close>, which raises
  \<open>ValueError\<close> for the first required field that is empty; the other fields start empty
  and are attached later by the setters.
\<close>

datatype error =
    ZeroDivisionError
  | ValueError string
  | IndexError
  | NoSuchElementException
  | PremiumRedirectError nat
  | ExternalError string

record job =
  title :: string
  company :: string
  location :: string
  link :: string
  apply_method :: string
  description :: string
  summarize_job_description :: string
  pdf_path :: string
  recruiter_link :: string

definition Job :: "string \<Rightarrow> string \<Rightarrow> string \<Rightarrow> string \<Rightarrow> string \<Rightarrow> error + job" where
  "Job t c loc l m =
     (if t = [] then Inl (ValueError ''title'')
      else if c = [] then Inl (ValueError ''company'')
      else if loc = [] then Inl (ValueError ''location'')
      else if l = [] then Inl (ValueError ''link'')
      else if m = [] then Inl (ValueError ''apply_method'')
      else Inr \<lparr>title = t, company = c, location = loc, link = l, apply_method = m,
                description = [], summarize_job_description = [], pdf_path = [],
                recruiter_link = []\<rparr>)"

definition set_job_description :: "string \<Rightarrow> job \<Rightarrow> job" where
  "set_job_description d j = j\<lparr>description := d\<rparr>"

definition set_recruiter_link :: "string \<Rightarrow> job \<Rightarrow> job" where
  "set_recruiter_link r j = j\<lparr>recruiter_link := r\<rparr>"

section \<open>The outcome logs\<close>

text \<open>
  \<open>write_to_file\<close> keeps three JSON files in the output directory, \<open>success.json\<close>,
  \<open>failed.json\<close> and \<open>skipped.json\<close>. A file is absent, or holds text that
  \<open>json.load\<close> rejects (the code then continues with an empty list), or holds an array
  of outcome records. The \<open>pdf_path\<close> of a record is the file URI of the resolved path,
  which depends on the working directory and is kept symbolic.
\<close>

datatype outcome = Success | Failed | Skipped

datatype uri = As_uri string

record outcome_record =
  r_company :: string
  r_job_title :: string
  r_link :: string
  r_job_recruiter :: string
  r_job_location :: string
  r_pdf_path :: uri

datatype json_file = Missing | Undecodable | Records "outcome_record list"

definition record_of :: "job \<Rightarrow> outcome_record" where
  "record_of j =
     \<lparr>r_company = company j, r_job_title = title j, r_link = link j,
      r_job_recruiter = recruiter_link j, r_job_location = location j,
      r_pdf_path = As_uri (pdf_path j)\<rparr>"

fun append_record :: "outcome_record \<Rightarrow> json_file \<Rightarrow> json_file" where
  "append_record d Missing = Records [d]"
| "append_record d Undecodable = Records [d]"
| "append_record d (Records existing_data) = Records (existing_data @ [d])"

section \<open>The job manager\<close>

text \<open>
  The attributes of \<open>DreamBoosterJobManager\<close> that the eligibility filter and the apply
  loop read, together with the three files under \<open>output_file_directory\<close>. The
  attribute \<open>keywords\<close> is \<open>job_keywords\<close> here. The match score is the exact
  quotient of two counts and the threshold is a rational number. \<open>set_parameters\<close>
  reads each setting with its default; a setting that is absent is \<open>None\<close>.
\<close>

record manager =
  company_blacklist :: "string list"
  title_blacklist :: "string list"
  apply_once_at_company :: bool
  seen_jobs :: "string list"
  match_threshold :: rat
  job_keywords :: "string list"
  success_json :: json_file
  failed_json :: json_file
  skipped_json :: json_file

record parameters =
  p_company_blacklist :: "string list option"
  p_title_blacklist :: "string list option"
  p_apply_once_at_company :: "bool option"
  p_match_threshold :: "rat option"
  p_keywords :: "string list option"

definition set_parameters :: "parameters \<Rightarrow> manager \<Rightarrow> manager" where
  "set_parameters p m =
     m\<lparr>company_blacklist := (case p_company_blacklist p of None \<Rightarrow> [] | Some xs \<Rightarrow> xs),
       title_blacklist := (case p_title_blacklist p of None \<Rightarrow> [] | Some xs \<Rightarrow> xs),
       apply_once_at_company := (case p_apply_once_at_company p of None \<Rightarrow> False | Some b \<Rightarrow> b),
       seen_jobs := [],
       match_threshold := (case p_match_threshold p of None \<Rightarrow> 3 / 4 | Some t \<Rightarrow> t),
       job_keywords := (case p_keywords p of None \<Rightarrow> [] | Some ks \<Rightarrow> ks)\<rparr>"

definition log_of :: "outcome \<Rightarrow> manager \<Rightarrow> json_file" where
  "log_of file_name m =
     (case file_name of Success \<Rightarrow> success_json m | Failed \<Rightarrow> failed_json m
      | Skipped \<Rightarrow> skipped_json m)"

definition write_to_file :: "manager \<Rightarrow> job \<Rightarrow> outcome \<Rightarrow> manager" where
  "write_to_file m j file_name =
     (case file_name of
        Success \<Rightarrow> m\<lparr>success_json := append_record (record_of j) (success_json m)\<rparr>
      | Failed \<Rightarrow> m\<lparr>failed_json := append_record (record_of j) (failed_json m)\<rparr>
      | Skipped \<Rightarrow> m\<lparr>skipped_json := append_record (record_of j) (skipped_json m)\<rparr>)"

definition link_seen :: "manager \<Rightarrow> string \<Rightarrow> bool" where
  "link_seen m l = (l \<in> set (seen_jobs m))"

definition title_blacklisted :: "manager \<Rightarrow> string \<Rightarrow> bool" where
  "title_blacklisted m job_title =
     (let job_title_words = split_on CHR '' '' (lower job_title)
      in list_ex (\<lambda>word. word \<in> set job_title_words) (title_blacklist m))"

definition company_blacklisted :: "manager \<Rightarrow> string \<Rightarrow> bool" where
  "company_blacklisted m c =
     (lower (strip c) \<in> set (map (\<lambda>word. lower (strip word)) (company_blacklist m)))"

definition is_blacklisted :: "manager \<Rightarrow> string \<Rightarrow> string \<Rightarrow> string \<Rightarrow> bool" where
  "is_blacklisted m job_title c l =
     (title_blacklisted m job_title \<or> company_blacklisted m c \<or> link_seen m l)"

definition is_already_applied_to_job :: "manager \<Rightarrow> string \<Rightarrow> string \<Rightarrow> string \<Rightarrow> bool" where
  "is_already_applied_to_job m job_title c l = link_seen m l"

definition is_already_applied_to_company :: "manager \<Rightarrow> string \<Rightarrow> bool" where
  "is_already_applied_to_company m c =
     (if \<not> apply_once_at_company m then False
      else (case success_json m of
              Missing \<Rightarrow> False
            | Undecodable \<Rightarrow> False
            | Records existing_data \<Rightarrow>
                list_ex (\<lambda>r. lower (strip (r_company r)) = lower (strip c)) existing_data))"

definition keyword_hits :: "manager \<Rightarrow> job \<Rightarrow> nat" where
  "keyword_hits m j =
     length (filter (\<lambda>keyword. str_in (lower keyword) (lower (title j))
                              \<or> str_in (lower keyword) (lower (description j)))
               (job_keywords m))"

definition matches_job_criteria :: "manager \<Rightarrow> job \<Rightarrow> error + bool" where
  "matches_job_criteria m j =
     (if length (job_keywords m) = 0 then Inl ZeroDivisionError
      else Inr (of_nat (keyword_hits m j) / of_nat (length (job_keywords m))
                  \<ge> match_threshold m))"

definition is_job_suitable :: "manager \<Rightarrow> job \<Rightarrow> (error + bool) \<times> manager" where
  "is_job_suitable m j =
     (if is_blacklisted m (title j) (company j) (link j)
        then (Inr False, write_to_file m j Skipped)
      else if is_already_applied_to_job m (title j) (company j) (link j)
        then (Inr False, write_to_file m j Skipped)
      else if is_already_applied_to_company m (company j)
        then (Inr False, write_to_file m j Skipped)
      else (case matches_job_criteria m j of
              Inl e \<Rightarrow> (Inl e, m)
            | Inr ok \<Rightarrow> if \<not> ok then (Inr False, write_to_file m j Skipped)
                        else (Inr True, m)))"

section \<open>The easy applier: retries\<close>

text \<open>
  \<open>_execute_job_apply\<close> drives the browser through one whole application. What a run
  does is decided by the site: whether it raises, and which description and recruiter link
  it attaches to the job before that. The applier therefore carries a script giving the
  outcome of its k-th run, and a log of the runs and of the waits \<open>job_apply\<close> makes.
  \<open>Sleep_uniform lo hi\<close> is \<open>time.sleep(random.uniform(lo, hi))\<close>.
\<close>

datatype event = Execute_job_apply | Sleep_uniform nat nat | Sleep nat | Driver_get string

record attempt =
  raised :: "error option"
  found_description :: "string option"
  found_recruiter_link :: "string option"

record applier =
  attempt_script :: "nat \<Rightarrow> attempt"
  calls :: "event list"

definition executions :: "event list \<Rightarrow> nat" where
  "executions es = length (filter (\<lambda>e. e = Execute_job_apply) es)"

definition attach :: "attempt \<Rightarrow> job \<Rightarrow> job" where
  "attach t j =
     (let j1 = (case found_description t of None \<Rightarrow> j | Some d \<Rightarrow> set_job_description d j)
      in (case found_recruiter_link t of None \<Rightarrow> j1 | Some r \<Rightarrow> set_recruiter_link r j1))"

definition execute_job_apply :: "job \<Rightarrow> applier \<Rightarrow> (error + unit) \<times> job \<times> applier" where
  "execute_job_apply j a =
     (let t = attempt_script a (executions (calls a));
          a' = a\<lparr>calls := calls a @ [Execute_job_apply]\<rparr>
      in ((case raised t of None \<Rightarrow> Inr () | Some e \<Rightarrow> Inl e), attach t j, a'))"

definition sleep_uniform :: "nat \<Rightarrow> nat \<Rightarrow> applier \<Rightarrow> applier" where
  "sleep_uniform lo hi a = a\<lparr>calls := calls a @ [Sleep_uniform lo hi]\<rparr>"

definition max_retries :: nat where
  "max_retries = 3"

fun job_apply_attempts :: "nat list \<Rightarrow> job \<Rightarrow> applier \<Rightarrow> (error + unit) \<times> job \<times> applier" where
  "job_apply_attempts [] j a = (Inr (), j, a)"
| "job_apply_attempts (attempt # rest) j a =
     (case execute_job_apply j a of
        (Inr u, j', a') \<Rightarrow> (Inr (), j', a')
      | (Inl e, j', a') \<Rightarrow>
          if attempt = max_retries - 1 then (Inl e, j', a')
          else job_apply_attempts rest j' (sleep_uniform 2 5 a'))"

definition job_apply :: "job \<Rightarrow> applier \<Rightarrow> (error + unit) \<times> job \<times> applier" where
  "job_apply j a = job_apply_attempts [0..<max_retries] j a"

section \<open>The apply loop\<close>

text \<open>
  \<open>apply_jobs\<close> first builds a \<open>Job\<close> from every tile (title, company, location,
  link, way of applying, as \<open>extract_job_information_from_tile\<close> returns them), then runs
  its loop body on each job in turn. An exception of \<open>is_job_suitable\<close> is outside the
  \<open>try\<close> and leaves the loop; an exception of \<open>job_apply\<close> is caught.
\<close>

type_synonym tile = "string \<times> string \<times> string \<times> string \<times> string"

fun make_jobs :: "tile list \<Rightarrow> error + job list" where
  "make_jobs [] = Inr []"
| "make_jobs ((t, c, loc, l, m) # tiles) =
     (case Job t c loc l m of
        Inl e \<Rightarrow> Inl e
      | Inr j \<Rightarrow> (case make_jobs tiles of Inl e \<Rightarrow> Inl e | Inr js \<Rightarrow> Inr (j # js)))"

definition apply_jobs_body :: "job \<Rightarrow> manager \<times> applier \<Rightarrow> error option \<times> manager \<times> applier" where
  "apply_jobs_body j s =
     (case s of (m, a) \<Rightarrow>
        (case is_job_suitable m j of
           (Inl e, m') \<Rightarrow> (Some e, m', a)
         | (Inr suitable, m') \<Rightarrow>
             if \<not> suitable then (None, m', a)
             else if apply_method j \<notin> set [''Continue'', ''Applied'', ''Apply''] then
               (case job_apply j a of
                  (Inr u, j', a') \<Rightarrow> (None, write_to_file m' j' Success, a')
                | (Inl e, j', a') \<Rightarrow> (None, write_to_file m' j' Failed, a'))
             else (None, m', a)))"

fun apply_jobs_loop :: "job list \<Rightarrow> manager \<times> applier \<Rightarrow> error option \<times> manager \<times> applier" where
  "apply_jobs_loop [] s = (None, s)"
| "apply_jobs_loop (j # js) s =
     (case apply_jobs_body j s of
        (Some e, s') \<Rightarrow> (Some e, s')
      | (None, s') \<Rightarrow> apply_jobs_loop js s')"

definition apply_jobs :: "tile list \<Rightarrow> manager \<times> applier \<Rightarrow> error option \<times> manager \<times> applier" where
  "apply_jobs job_list_elements s =
     (case make_jobs job_list_elements of
        Inl e \<Rightarrow> (Some e, s)
      | Inr job_list \<Rightarrow> apply_jobs_loop job_list s)"

text \<open>
  The operations of the job manager that touch the attributes above, and a run of any
  sequence of them.
\<close>

datatype operation =
    Set_parameters parameters
  | Is_job_suitable job
  | Write_to_file job outcome
  | Apply_jobs "tile list"

fun perform :: "operation \<Rightarrow> manager \<times> applier \<Rightarrow> manager \<times> applier" where
  "perform (Set_parameters p) (m, a) = (set_parameters p m, a)"
| "perform (Is_job_suitable j) (m, a) = (snd (is_job_suitable m j), a)"
| "perform (Write_to_file j file_name) (m, a) = (write_to_file m j file_name, a)"
| "perform (Apply_jobs tiles) (m, a) = snd (apply_jobs tiles (m, a))"

fun run :: "operation list \<Rightarrow> manager \<times> applier \<Rightarrow> manager \<times> applier" where
  "run [] s = s"
| "run (operation # rest) s = run rest (perform operation s)"

section \<open>The easy applier: the premium redirect\<close>

text \<open>
  The browser shows one URL at a time. Where a navigation lands is decided by the site,
  so the browser carries a script: the k-th \<open>driver.get\<close> of the session either raises
  or leaves the browser at the given URL. The log keeps every \<open>driver.get\<close> and every
  \<open>time.sleep\<close> of the check.
\<close>

record browser =
  current_url :: string
  page_after :: "nat \<Rightarrow> error + string"
  driver_log :: "event list"

fun is_get :: "event \<Rightarrow> bool" where
  "is_get (Driver_get l) = True"
| "is_get e = False"

definition navigations :: "event list \<Rightarrow> nat" where
  "navigations es = length (filter is_get es)"

definition driver_get :: "string \<Rightarrow> browser \<Rightarrow> (error + unit) \<times> browser" where
  "driver_get l b =
     (let b' = b\<lparr>driver_log := driver_log b @ [Driver_get l]\<rparr>
      in (case page_after b (navigations (driver_log b)) of
            Inl e \<Rightarrow> (Inl e, b')
          | Inr u \<Rightarrow> (Inr (), b'\<lparr>current_url := u\<rparr>)))"

definition sleep :: "nat \<Rightarrow> browser \<Rightarrow> browser" where
  "sleep seconds b = b\<lparr>driver_log := driver_log b @ [Sleep seconds]\<rparr>"

definition premium :: "string \<Rightarrow> bool" where
  "premium url = str_in ''linkedin.com/premium'' url"

function redirect_loop ::
  "job \<Rightarrow> nat \<Rightarrow> nat \<Rightarrow> string \<Rightarrow> browser \<Rightarrow> (error + string) \<times> browser" where
  "redirect_loop j max_attempts attempts url b =
     (if premium url \<and> attempts < max_attempts then
        (case driver_get (link j) b of
           (Inl e, b') \<Rightarrow> (Inl e, b')
         | (Inr u, b') \<Rightarrow>
             redirect_loop j max_attempts (attempts + 1) (current_url (sleep 2 b')) (sleep 2 b'))
      else (Inr url, b))"
  by pat_completeness auto
termination
  by (relation "measure (\<lambda>(j, max_attempts, attempts, url, b). max_attempts - attempts)") auto

definition check_for_premium_redirect :: "job \<Rightarrow> nat \<Rightarrow> browser \<Rightarrow> (error + unit) \<times> browser" where
  "check_for_premium_redirect j max_attempts b =
     (case redirect_loop j max_attempts 0 (current_url b) b of
        (Inl e, b') \<Rightarrow> (Inl e, b')
      | (Inr url, b') \<Rightarrow>
          if premium url then (Inl (PremiumRedirectError max_attempts), b') else (Inr (), b'))"

section \<open>The easy applier: form fields\<close>

text \<open>
  A \<open>select\<close> element has the visible texts of its options, in document order, and the
  index of the option that is selected. Selenium's \<open>select_by_visible_text\<close> on a
  single-choice element selects the first option that carries the text, and raises when no
  option does. \<open>random.choice(seq)\<close> raises on an empty sequence and otherwise returns
  the element at an index below \<open>len(seq)\<close> that the generator draws; the draw is the
  argument \<open>r\<close>, reduced modulo the length.
\<close>

record select_element =
  options :: "string list"
  selected :: "nat option"

fun first_index :: "string \<Rightarrow> string list \<Rightarrow> nat option" where
  "first_index t [] = None"
| "first_index t (x # xs) =
     (if x = t then Some 0 else map_option Suc (first_index t xs))"

definition select_by_visible_text :: "string \<Rightarrow> select_element \<Rightarrow> (error + unit) \<times> select_element" where
  "select_by_visible_text t s =
     (case first_index t (options s) of
        None \<Rightarrow> (Inl NoSuchElementException, s)
      | Some i \<Rightarrow> (Inr (), s\<lparr>selected := Some i\<rparr>))"

definition random_choice :: "nat \<Rightarrow> 'a list \<Rightarrow> error + 'a" where
  "random_choice r seq = (if seq = [] then Inl IndexError else Inr (seq ! (r mod length seq)))"

definition handle_dropdown_fields :: "nat \<Rightarrow> select_element \<Rightarrow> (error + unit) \<times> select_element" where
  "handle_dropdown_fields r s =
     (if length (options s) > 1 then
        (case random_choice r (drop 1 (options s)) of
           Inl e \<Rightarrow> (Inl e, s)
         | Inr selected_option \<Rightarrow> select_by_visible_text selected_option s)
      else (Inr (), s))"

text \<open>
  The Question/Answer Store is the list \<open>all_data\<close> of entries read from
  \<open>answers.json\<close>, each with a question and an answer. The external answerer replies to a
  question or raises; it keeps the list of the questions it has been asked.
\<close>

record qa_entry =
  question :: string
  answer :: string

record answerer =
  reply :: "string \<Rightarrow> error + string"
  asked :: "string list"

definition answer_question :: "string \<Rightarrow> answerer \<Rightarrow> (error + string) \<times> answerer" where
  "answer_question q g = (reply g q, g\<lparr>asked := asked g @ [q]\<rparr>)"

fun get_answer_for_question ::
  "qa_entry list \<Rightarrow> string \<Rightarrow> answerer \<Rightarrow> (error + string) \<times> answerer" where
  "get_answer_for_question [] q g = answer_question q g"
| "get_answer_for_question (item # all_data) q g =
     (if lower (question item) = lower q then (Inr (answer item), g)
      else get_answer_for_question all_data q g)"

declare redirect_loop.simps [simp del]

section \<open>Concrete inputs\<close>

text \<open>The inputs at which the results below are evaluated.\<close>

definition acme_job :: job where
  "acme_job =
     \<lparr>title = ''Lead Engineer'', company = ''Acme'', location = ''Remote'',
      link = ''https://example.com/jobs/1'', apply_method = ''Easy Apply'', description = [],
      summarize_job_description = [], pdf_path = [], recruiter_link = []\<rparr>"

definition plain_manager :: manager where
  "plain_manager =
     \<lparr>company_blacklist = [], title_blacklist = [], apply_once_at_company = False,
      seen_jobs = [], match_threshold = 3 / 4, job_keywords = [], success_json = Missing,
      failed_json = Missing, skipped_json = Missing\<rparr>"

definition acme_record :: outcome_record where
  "acme_record =
     \<lparr>r_company = '' ACME '', r_job_title = ''Data Analyst'',
      r_link = ''https://example.com/jobs/0'', r_job_recruiter = [],
      r_job_location = ''Remote'', r_pdf_path = As_uri []\<rparr>"

definition once_manager :: manager where
  "once_manager =
     \<lparr>company_blacklist = [], title_blacklist = [], apply_once_at_company = True,
      seen_jobs = [], match_threshold = 3 / 4, job_keywords = [''engineer''],
      success_json = Records [acme_record], failed_json = Missing, skipped_json = Missing\<rparr>"

definition stored_answers :: "qa_entry list" where
  "stored_answers =
     [\<lparr>question = ''Years of experience?'', answer = ''5''\<rparr>,
      \<lparr>question = ''Notice period'', answer = ''30 days''\<rparr>]"

definition silent_answerer :: answerer where
  "silent_answerer = \<lparr>reply = (\<lambda>q. Inr ''generated''), asked = []\<rparr>"

definition twin_select :: select_element where
  "twin_select = \<lparr>options = [''Yes'', ''Yes''], selected = None\<rparr>"

definition keyword_manager :: manager where
  "keyword_manager =
     \<lparr>company_blacklist = [], title_blacklist = [], apply_once_at_company = False,
      seen_jobs = [], match_threshold = 3 / 4, job_keywords = [''engineer''],
      success_json = Missing, failed_json = Missing, skipped_json = Missing\<rparr>"

definition flaky_applier :: applier where
  "flaky_applier =
     \<lparr>attempt_script =
        (\<lambda>k. if k = 0
              then \<lparr>raised = Some (ExternalError ''timeout''),
                    found_description = Some ''We build engines'', found_recruiter_link = None\<rparr>
              else \<lparr>raised = None, found_description = Some ''We build engines'',
                    found_recruiter_link = Some ''https://example.com/in/r''\<rparr>),
      calls = []\<rparr>"

definition stuck_browser :: browser where
  "stuck_browser =
     \<lparr>current_url = ''https://www.linkedin.com/premium/products'',
      page_after = (\<lambda>k. Inr ''https://www.linkedin.com/premium/products''),
      driver_log = []\<rparr>"

definition job_page_browser :: browser where
  "job_page_browser =
     \<lparr>current_url = ''https://www.linkedin.com/jobs/view/1'',
      page_after = (\<lambda>k. Inr ''https://www.linkedin.com/jobs/view/1''),
      driver_log = []\<rparr>"

definition applied_job :: job where
  "applied_job =
     \<lparr>title = ''Lead Engineer'', company = ''Acme'', location = ''Remote'',
      link = ''https://example.com/jobs/2'', apply_method = ''Applied'', description = [],
      summarize_job_description = [], pdf_path = [], recruiter_link = []\<rparr>"

section \<open>The eligibility filter\<close>

lemma write_to_file_seen_jobs: "seen_jobs (write_to_file m j file_name) = seen_jobs m"
  by (cases file_name) (simp_all add: write_to_file_def)

lemma is_job_suitable_cases:
  "is_job_suitable m j = (Inr True, m)
   \<or> is_job_suitable m j = (Inr False, write_to_file m j Skipped)
   \<or> (is_job_suitable m j = (Inl ZeroDivisionError, m) \<and> job_keywords m = [])"
  by (simp add: is_job_suitable_def matches_job_criteria_def)

text \<open>
  C1. The claim is that with no configured keywords the keyword check does not raise and
  lets every job pass. The code divides the number of hits by \<open>len(self.keywords)\<close>
  with no guard: with an empty keyword list \<open>matches_job_criteria\<close> raises
  \<open>ZeroDivisionError\<close> for every job.
\<close>

theorem matches_job_criteria_empty_keywords_raises:
  "job_keywords m = [] \<Longrightarrow> matches_job_criteria m j = Inl ZeroDivisionError"
  by (simp add: matches_job_criteria_def)

theorem matches_job_criteria_empty_keywords_raises_witness:
  "job_keywords plain_manager = []
   \<and> matches_job_criteria plain_manager acme_job = Inl ZeroDivisionError"
  using matches_job_criteria_empty_keywords_raises [of plain_manager acme_job]
  by (simp add: plain_manager_def)

text \<open>
  C3. The claim is that the blacklist check flags a title exactly when some blacklist entry
  equals, without regard to case, one whole space-separated word of the title. The code
  lowers the title before splitting it but compares the blacklist entries as they are
  configured (the company check, two lines below, lowers both sides). The two examples of
  the claim hold for the entry \<open>lead\<close>; for the entry \<open>Lead\<close> the title
  \<open>Lead Engineer\<close> is not flagged.
\<close>

theorem is_blacklisted_title_entry_case:
  "title_blacklisted (plain_manager\<lparr>title_blacklist := [''lead'']\<rparr>) ''Lead Engineer''
   \<and> \<not> title_blacklisted (plain_manager\<lparr>title_blacklist := [''lead'']\<rparr>) ''Team Leader Wanted''
   \<and> \<not> title_blacklisted (plain_manager\<lparr>title_blacklist := [''Lead'']\<rparr>) ''Lead Engineer''
   \<and> \<not> is_blacklisted (plain_manager\<lparr>title_blacklist := [''Lead'']\<rparr>)
         ''Lead Engineer'' ''Acme'' ''https://example.com/jobs/1''"
  by (simp add: title_blacklisted_def is_blacklisted_def company_blacklisted_def link_seen_def
        plain_manager_def lower_def lower_char_def strip_def is_space_def)

text \<open>
  C4. The claim is that \<open>is_job_suitable\<close> returns a boolean for every job, writes one
  skipped record when it returns false and none when it returns true. A job that passes
  the blacklist and the company check reaches the keyword check, and with no configured
  keywords \<open>is_job_suitable\<close> returns nothing: it raises \<open>ZeroDivisionError\<close> and
  writes no record. (Whenever it does return, it behaves as claimed:
  \<open>is_job_suitable_cases\<close>.)
\<close>

theorem is_job_suitable_empty_keywords_raises:
  "\<not> is_blacklisted m (title j) (company j) (link j)
   \<Longrightarrow> \<not> is_already_applied_to_company m (company j)
   \<Longrightarrow> job_keywords m = []
   \<Longrightarrow> is_job_suitable m j = (Inl ZeroDivisionError, m)"
  by (simp add: is_job_suitable_def matches_job_criteria_def is_already_applied_to_job_def
        is_blacklisted_def)

theorem is_job_suitable_empty_keywords_raises_witness:
  "\<not> is_blacklisted plain_manager (title acme_job) (company acme_job) (link acme_job)
   \<and> \<not> is_already_applied_to_company plain_manager (company acme_job)
   \<and> job_keywords plain_manager = []
   \<and> is_job_suitable plain_manager acme_job = (Inl ZeroDivisionError, plain_manager)"
proof -
  have b: "\<not> is_blacklisted plain_manager (title acme_job) (company acme_job) (link acme_job)"
    by (simp add: is_blacklisted_def title_blacklisted_def company_blacklisted_def
          link_seen_def plain_manager_def)
  have c: "\<not> is_already_applied_to_company plain_manager (company acme_job)"
    by (simp add: is_already_applied_to_company_def plain_manager_def)
  have k: "job_keywords plain_manager = []"
    by (simp add: plain_manager_def)
  show ?thesis
    using b c k is_job_suitable_empty_keywords_raises [OF b c k] by simp
qed

text \<open>
  C5. When \<open>apply_once_at_company\<close> is true and the company of the job equals, after
  \<open>strip\<close> and \<open>lower\<close> on both sides, the company of some record of the success log,
  the company check holds, \<open>is_job_suitable\<close> returns false and the job is appended to the
  skipped log. When \<open>apply_once_at_company\<close> is false the company check holds for no
  company.
\<close>

theorem apply_once_at_company_filters:
  "(apply_once_at_company m \<and> success_json m = Records existing_data \<and> r \<in> set existing_data
      \<and> lower (strip (r_company r)) = lower (strip (company j))
    \<longrightarrow> is_already_applied_to_company m (company j)
        \<and> is_job_suitable m j = (Inr False, write_to_file m j Skipped)
        \<and> skipped_json (snd (is_job_suitable m j)) = append_record (record_of j) (skipped_json m))
   \<and> (\<not> apply_once_at_company m \<longrightarrow> \<not> is_already_applied_to_company m c)"
  by (auto simp add: is_job_suitable_def is_already_applied_to_company_def list_ex_iff
        write_to_file_def)

theorem apply_once_at_company_filters_witness:
  "apply_once_at_company once_manager \<and> success_json once_manager = Records [acme_record]
   \<and> acme_record \<in> set [acme_record]
   \<and> lower (strip (r_company acme_record)) = lower (strip (company acme_job))
   \<and> is_already_applied_to_company once_manager (company acme_job)
   \<and> is_job_suitable once_manager acme_job = (Inr False, write_to_file once_manager acme_job Skipped)
   \<and> skipped_json (snd (is_job_suitable once_manager acme_job)) = Records [record_of acme_job]
   \<and> \<not> apply_once_at_company plain_manager
   \<and> \<not> is_already_applied_to_company plain_manager ''Acme''"
proof -
  have h: "apply_once_at_company once_manager \<and> success_json once_manager = Records [acme_record]
           \<and> acme_record \<in> set [acme_record]
           \<and> lower (strip (r_company acme_record)) = lower (strip (company acme_job))"
    by (simp add: once_manager_def acme_record_def acme_job_def lower_def lower_char_def
          strip_def is_space_def)
  have n: "\<not> apply_once_at_company plain_manager"
    by (simp add: plain_manager_def)
  have s: "skipped_json once_manager = Missing"
    by (simp add: once_manager_def)
  show ?thesis
    using h n s
      apply_once_at_company_filters [of once_manager "[acme_record]" acme_record acme_job
        "''Acme''"]
      apply_once_at_company_filters [of plain_manager "[]" acme_record acme_job "''Acme''"]
    by (simp add: write_to_file_def)
qed

section \<open>The seen-jobs collection\<close>

lemma is_job_suitable_seen_jobs: "seen_jobs (snd (is_job_suitable m j)) = seen_jobs m"
  using is_job_suitable_cases [of m j] by (auto simp add: write_to_file_seen_jobs)

lemma apply_jobs_body_seen_jobs:
  "seen_jobs (fst (snd (apply_jobs_body j (m, a)))) = seen_jobs m"
  using is_job_suitable_cases [of m j]
  by (auto simp add: apply_jobs_body_def write_to_file_seen_jobs split: prod.splits sum.splits)

lemma apply_jobs_loop_seen_jobs:
  "seen_jobs (fst (snd (apply_jobs_loop js (m, a)))) = seen_jobs m"
proof (induction js arbitrary: m a)
  case Nil
  show ?case by simp
next
  case (Cons j js)
  obtain r m1 a1 where step: "apply_jobs_body j (m, a) = (r, m1, a1)"
    by (cases "apply_jobs_body j (m, a)") auto
  have kept: "seen_jobs m1 = seen_jobs m"
    using apply_jobs_body_seen_jobs [of j m a] step by simp
  show ?case
  proof (cases r)
    case None
    then show ?thesis using step kept Cons.IH [of m1 a1] by simp
  next
    case (Some e)
    then show ?thesis using step kept by simp
  qed
qed

lemma apply_jobs_seen_jobs:
  "seen_jobs (fst (snd (apply_jobs tiles (m, a)))) = seen_jobs m"
  by (simp add: apply_jobs_def apply_jobs_loop_seen_jobs split: sum.splits)

lemma perform_seen_jobs:
  "seen_jobs (fst (perform operation s)) = seen_jobs (fst s)
   \<or> seen_jobs (fst (perform operation s)) = []"
proof (cases s)
  case (Pair m a)
  then show ?thesis
    by (cases operation)
       (simp_all add: set_parameters_def is_job_suitable_seen_jobs write_to_file_seen_jobs
          apply_jobs_seen_jobs)
qed

lemma run_seen_jobs: "seen_jobs (fst s) = [] \<Longrightarrow> seen_jobs (fst (run ops s)) = []"
proof (induction ops arbitrary: s)
  case Nil
  then show ?case by simp
next
  case (Cons operation ops)
  have "seen_jobs (fst (perform operation s)) = []"
    using perform_seen_jobs [of operation s] Cons.prems by auto
  then show ?case using Cons.IH by simp
qed

text \<open>
  C10. \<open>set_parameters\<close> sets \<open>seen_jobs\<close> to the empty list and no operation of the
  job manager adds a link to it: after \<open>set_parameters\<close> and any sequence of operations
  the collection is empty, the link test of \<open>is_blacklisted\<close> and
  \<open>is_already_applied_to_job\<close> is false for every job, and \<open>is_blacklisted\<close> is decided
  by the title and the company alone. No single operation, from any state, adds a link.
\<close>

theorem seen_jobs_stays_empty:
  "seen_jobs (fst (run ops (perform (Set_parameters p) s))) = []
   \<and> \<not> link_seen (fst (run ops (perform (Set_parameters p) s))) l
   \<and> \<not> is_already_applied_to_job (fst (run ops (perform (Set_parameters p) s))) t c l
   \<and> is_blacklisted (fst (run ops (perform (Set_parameters p) s))) t c l
       = (title_blacklisted (fst (run ops (perform (Set_parameters p) s))) t
          \<or> company_blacklisted (fst (run ops (perform (Set_parameters p) s))) c)
   \<and> set (seen_jobs (fst (perform operation s))) \<subseteq> set (seen_jobs (fst s))"
proof -
  have "seen_jobs (fst (perform (Set_parameters p) s)) = []"
    by (cases s) (simp add: set_parameters_def)
  then have empty: "seen_jobs (fst (run ops (perform (Set_parameters p) s))) = []"
    by (rule run_seen_jobs)
  have kept: "set (seen_jobs (fst (perform operation s))) \<subseteq> set (seen_jobs (fst s))"
    using perform_seen_jobs [of operation s] by auto
  show ?thesis
    using empty kept by (simp add: link_seen_def is_already_applied_to_job_def is_blacklisted_def)
qed

section \<open>The Question/Answer Store\<close>

lemma get_answer_hit:
  "\<exists>item \<in> set all_data. lower (question item) = lower q \<Longrightarrow>
   \<exists>item \<in> set all_data. lower (question item) = lower q
      \<and> get_answer_for_question all_data q g = (Inr (answer item), g)"
  by (induction all_data) auto

lemma get_answer_find:
  "get_answer_for_question all_data q g =
     (case find (\<lambda>item. lower (question item) = lower q) all_data of
        Some item \<Rightarrow> (Inr (answer item), g)
      | None \<Rightarrow> answer_question q g)"
  by (induction all_data) auto

lemma get_answer_miss:
  "\<not> (\<exists>item \<in> set all_data. lower (question item) = lower q) \<Longrightarrow>
   get_answer_for_question all_data q g = answer_question q g"
  by (induction all_data) auto

text \<open>
  C9. When the question equals, after \<open>lower\<close> on both sides, the question of some
  stored entry, \<open>_get_answer_for_question\<close> returns the answer of a matching entry (the
  first one in the store) and the external answerer is not asked; when no stored question
  matches, the answerer is asked this question, once, and its reply is returned. So the
  answerer is asked exactly when no stored question matches.
\<close>

theorem get_answer_for_question_store_first:
  "((\<exists>item \<in> set all_data. lower (question item) = lower q) \<longrightarrow>
      (\<exists>item \<in> set all_data. lower (question item) = lower q
         \<and> get_answer_for_question all_data q g = (Inr (answer item), g))
      \<and> asked (snd (get_answer_for_question all_data q g)) = asked g)
   \<and> (\<not> (\<exists>item \<in> set all_data. lower (question item) = lower q) \<longrightarrow>
      get_answer_for_question all_data q g = (reply g q, g\<lparr>asked := asked g @ [q]\<rparr>))
   \<and> get_answer_for_question all_data q g =
       (case find (\<lambda>item. lower (question item) = lower q) all_data of
          Some item \<Rightarrow> (Inr (answer item), g)
        | None \<Rightarrow> answer_question q g)
   \<and> ((asked (snd (get_answer_for_question all_data q g)) \<noteq> asked g)
        = (\<not> (\<exists>item \<in> set all_data. lower (question item) = lower q)))"
proof -
  have hit: "(\<exists>item \<in> set all_data. lower (question item) = lower q) \<longrightarrow>
      (\<exists>item \<in> set all_data. lower (question item) = lower q
         \<and> get_answer_for_question all_data q g = (Inr (answer item), g))
      \<and> asked (snd (get_answer_for_question all_data q g)) = asked g"
  proof
    assume ex: "\<exists>item \<in> set all_data. lower (question item) = lower q"
    then obtain item where item: "item \<in> set all_data" "lower (question item) = lower q"
        "get_answer_for_question all_data q g = (Inr (answer item), g)"
      using get_answer_hit [of all_data q g] by blast
    have "asked (snd (get_answer_for_question all_data q g)) = asked g"
      using item(3) by simp
    then show "(\<exists>item \<in> set all_data. lower (question item) = lower q
         \<and> get_answer_for_question all_data q g = (Inr (answer item), g))
      \<and> asked (snd (get_answer_for_question all_data q g)) = asked g"
      using item by blast
  qed
  have miss: "\<not> (\<exists>item \<in> set all_data. lower (question item) = lower q) \<longrightarrow>
      get_answer_for_question all_data q g = (reply g q, g\<lparr>asked := asked g @ [q]\<rparr>)"
    using get_answer_miss [of all_data q g] by (simp add: answer_question_def)
  have "(asked (snd (get_answer_for_question all_data q g)) \<noteq> asked g)
        = (\<not> (\<exists>item \<in> set all_data. lower (question item) = lower q))"
    using hit miss by auto
  then show ?thesis using hit miss get_answer_find [of all_data q g] by blast
qed

theorem get_answer_for_question_store_first_witness:
  "get_answer_for_question stored_answers ''NOTICE PERIOD'' silent_answerer
     = (Inr ''30 days'', silent_answerer)
   \<and> asked (snd (get_answer_for_question stored_answers ''NOTICE PERIOD'' silent_answerer)) = []
   \<and> get_answer_for_question stored_answers ''Salary?'' silent_answerer
     = (Inr ''generated'', silent_answerer\<lparr>asked := [''Salary?'']\<rparr>)"
proof -
  have hit: "find (\<lambda>item. lower (question item) = lower ''NOTICE PERIOD'') stored_answers
    = Some \<lparr>question = ''Notice period'', answer = ''30 days''\<rparr>"
    by (simp add: stored_answers_def lower_def lower_char_def)
  have miss: "find (\<lambda>item. lower (question item) = lower ''Salary?'') stored_answers = None"
    by (simp add: stored_answers_def lower_def lower_char_def)
  show ?thesis
    using get_answer_for_question_store_first [of stored_answers "''NOTICE PERIOD''" silent_answerer]
      get_answer_for_question_store_first [of stored_answers "''Salary?''" silent_answerer] hit miss
    by (simp add: answer_question_def silent_answerer_def)
qed

section \<open>Dropdown fields\<close>

lemma first_index_Some:
  "first_index t xs = Some i \<Longrightarrow> i < length xs \<and> xs ! i = t \<and> (\<forall>k<i. xs ! k \<noteq> t)"
proof (induction xs arbitrary: i)
  case Nil
  then show ?case by simp
next
  case (Cons x xs)
  show ?case
  proof (cases "x = t")
    case True
    then show ?thesis using Cons.prems by simp
  next
    case False
    then obtain k where k: "first_index t xs = Some k" "i = Suc k"
      using Cons.prems by auto
    have ih: "k < length xs \<and> xs ! k = t \<and> (\<forall>n<k. xs ! n \<noteq> t)"
      using Cons.IH [OF k(1)] .
    show ?thesis using False k(2) ih by (auto simp add: nth_Cons split: nat.splits)
  qed
qed

lemma first_index_member: "t \<in> set xs \<Longrightarrow> \<exists>i. first_index t xs = Some i"
  by (induction xs) auto

lemma handle_dropdown_few: "length (options s) \<le> 1 \<Longrightarrow> handle_dropdown_fields r s = (Inr (), s)"
  by (simp add: handle_dropdown_fields_def)

lemma handle_dropdown_many:
  assumes "2 \<le> length (options s)"
  shows "\<exists>i. first_index (options s ! (1 + r mod (length (options s) - 1))) (options s) = Some i
           \<and> handle_dropdown_fields r s = (Inr (), s\<lparr>selected := Some i\<rparr>)"
proof -
  let ?n = "length (options s)"
  let ?d = "1 + r mod (?n - 1)"
  have "r mod (?n - 1) < ?n - 1" using assms by simp
  then have d: "?d < ?n" by arith
  have "options s ! ?d \<in> set (options s)" using d by simp
  then obtain i where i: "first_index (options s ! ?d) (options s) = Some i"
    using first_index_member by blast
  have nonempty: "drop 1 (options s) \<noteq> []" using assms by simp
  have pick: "random_choice r (drop 1 (options s)) = Inr (options s ! ?d)"
    using assms nonempty by (simp add: random_choice_def)
  have "handle_dropdown_fields r s = (Inr (), s\<lparr>selected := Some i\<rparr>)"
    using assms pick i by (simp add: handle_dropdown_fields_def select_by_visible_text_def)
  then show ?thesis using i by blast
qed


text \<open>
  What the handler does in general: with one option or none it selects nothing; with two
  or more it draws the text at a position from 1 on and selects by that visible text, so
  the option selected carries the drawn text, it is not option 0 whenever the text of
  option 0 differs from the drawn text, and it is the drawn position itself when the texts
  are pairwise distinct.
\<close>

lemma handle_dropdown_fields_by_text:
  "(length (options s) \<le> 1 \<longrightarrow> handle_dropdown_fields r s = (Inr (), s))
   \<and> (2 \<le> length (options s) \<longrightarrow>
        (\<exists>i. handle_dropdown_fields r s = (Inr (), s\<lparr>selected := Some i\<rparr>)
           \<and> i < length (options s)
           \<and> options s ! i = options s ! (1 + r mod (length (options s) - 1))
           \<and> (options s ! 0 \<noteq> options s ! (1 + r mod (length (options s) - 1)) \<longrightarrow> 1 \<le> i)
           \<and> (distinct (options s) \<longrightarrow> i = 1 + r mod (length (options s) - 1))))"
proof (intro conjI impI)
  assume "length (options s) \<le> 1"
  then show "handle_dropdown_fields r s = (Inr (), s)" by (rule handle_dropdown_few)
next
  assume many: "2 \<le> length (options s)"
  let ?n = "length (options s)"
  let ?d = "1 + r mod (?n - 1)"
  obtain i where i: "first_index (options s ! ?d) (options s) = Some i"
      "handle_dropdown_fields r s = (Inr (), s\<lparr>selected := Some i\<rparr>)"
    using handle_dropdown_many [OF many, of r] by blast
  have fi: "i < ?n \<and> options s ! i = options s ! ?d \<and> (\<forall>k<i. options s ! k \<noteq> options s ! ?d)"
    using first_index_Some [OF i(1)] .
  have "r mod (?n - 1) < ?n - 1" using many by simp
  then have d: "?d < ?n" by arith
  have first: "options s ! 0 \<noteq> options s ! ?d \<longrightarrow> 1 \<le> i"
    using fi by (cases i) auto
  have dist: "distinct (options s) \<longrightarrow> i = ?d"
    using fi d by (auto simp add: nth_eq_iff_index_eq)
  show "\<exists>i. handle_dropdown_fields r s = (Inr (), s\<lparr>selected := Some i\<rparr>)
           \<and> i < ?n \<and> options s ! i = options s ! ?d
           \<and> (options s ! 0 \<noteq> options s ! ?d \<longrightarrow> 1 \<le> i)
           \<and> (distinct (options s) \<longrightarrow> i = ?d)"
    using i(2) fi first dist by blast
qed

text \<open>
  C8. The claim is that with two or more options the form filler never selects option 0.
  The code draws a text among the options after the first (its comment: exclude the first
  option as it is usually a placeholder) but then selects by that visible text, and the
  first option carrying the text is the one selected. With the two options \<open>Yes\<close>,
  \<open>Yes\<close> the text drawn is that of option 1 and the option selected is option 0,
  whatever the generator draws.
\<close>

theorem handle_dropdown_fields_twin_texts:
  "2 \<le> length (options twin_select)
   \<and> random_choice r (drop 1 (options twin_select)) = Inr ''Yes''
   \<and> handle_dropdown_fields r twin_select = (Inr (), twin_select\<lparr>selected := Some 0\<rparr>)"
  by (simp add: twin_select_def handle_dropdown_fields_def random_choice_def
        select_by_visible_text_def)

section \<open>Retries of the apply sequence\<close>

lemma upt_3: "[0..<3] = [0, 1, 2::nat]"
  by (simp add: upt_rec)

lemma executions_snoc:
  "executions (es @ [Execute_job_apply]) = Suc (executions es)"
  "executions (es @ [Sleep_uniform lo hi]) = executions es"
  by (simp_all add: executions_def)

lemma job_apply_unfold:
  "job_apply j a =
     (let k = executions (calls a);
          t0 = attempt_script a k; t1 = attempt_script a (k + 1); t2 = attempt_script a (k + 2);
          again = [Sleep_uniform 2 5, Execute_job_apply]
      in (case raised t0 of
            None \<Rightarrow> (Inr (), attach t0 j, a\<lparr>calls := calls a @ [Execute_job_apply]\<rparr>)
          | Some e0 \<Rightarrow>
              (case raised t1 of
                 None \<Rightarrow> (Inr (), attach t1 (attach t0 j),
                          a\<lparr>calls := calls a @ Execute_job_apply # again\<rparr>)
               | Some e1 \<Rightarrow>
                   (case raised t2 of
                      None \<Rightarrow> (Inr (), attach t2 (attach t1 (attach t0 j)),
                               a\<lparr>calls := calls a @ Execute_job_apply # again @ again\<rparr>)
                    | Some e2 \<Rightarrow> (Inl e2, attach t2 (attach t1 (attach t0 j)),
                               a\<lparr>calls := calls a @ Execute_job_apply # again @ again\<rparr>)))))"
  by (simp add: job_apply_def max_retries_def upt_3 execute_job_apply_def sleep_uniform_def
        executions_def Let_def split: option.splits)

lemma less_2_cases: "(i::nat) < 2 \<Longrightarrow> i = 0 \<or> i = 1"
  by arith

lemma replicate_2: "replicate 2 x = [x, x]"
  by (simp add: numeral_2_eq_2)

text \<open>
  C6. \<open>job_apply\<close> runs the apply sequence at least once and at most three times.
  Between two runs it sleeps for \<open>random.uniform(2, 5)\<close> seconds and does nothing
  else, so its log is one run followed by a sleep and a run for every further attempt.
  Every run before the last one failed; \<open>job_apply\<close> returns exactly when the last run
  succeeded, and raises exactly when three runs were made and the third failed, with the
  exception of the third. When it returns, the apply loop appends one record to the success
  log and leaves the two other logs as they were.
\<close>

theorem job_apply_retries:
  "1 \<le> executions (calls (snd (snd (job_apply j a)))) - executions (calls a)
   \<and> executions (calls (snd (snd (job_apply j a)))) - executions (calls a) \<le> 3
   \<and> calls (snd (snd (job_apply j a))) =
       calls a @ Execute_job_apply #
         concat (replicate
           (executions (calls (snd (snd (job_apply j a)))) - executions (calls a) - 1)
           [Sleep_uniform 2 5, Execute_job_apply])
   \<and> (\<forall>i. i < executions (calls (snd (snd (job_apply j a)))) - executions (calls a) - 1 \<longrightarrow>
          raised (attempt_script a (executions (calls a) + i)) \<noteq> None)
   \<and> ((fst (job_apply j a) = Inr ()) =
        (raised (attempt_script a (executions (calls (snd (snd (job_apply j a)))) - 1)) = None))
   \<and> (\<forall>e. (fst (job_apply j a) = Inl e) =
          (executions (calls (snd (snd (job_apply j a)))) - executions (calls a) = 3
           \<and> raised (attempt_script a (executions (calls a) + 2)) = Some e))
   \<and> (is_job_suitable m j = (Inr True, m)
        \<and> apply_method j \<notin> set [''Continue'', ''Applied'', ''Apply'']
        \<and> fst (job_apply j a) = Inr () \<longrightarrow>
        apply_jobs_body j (m, a) =
          (None, write_to_file m (fst (snd (job_apply j a))) Success, snd (snd (job_apply j a)))
        \<and> success_json (fst (snd (apply_jobs_body j (m, a)))) =
            append_record (record_of (fst (snd (job_apply j a)))) (success_json m)
        \<and> failed_json (fst (snd (apply_jobs_body j (m, a)))) = failed_json m
        \<and> skipped_json (fst (snd (apply_jobs_body j (m, a)))) = skipped_json m)"
proof -
  let ?k = "executions (calls a)"
  have caller: "is_job_suitable m j = (Inr True, m)
        \<and> apply_method j \<notin> set [''Continue'', ''Applied'', ''Apply'']
        \<and> fst (job_apply j a) = Inr () \<longrightarrow>
        apply_jobs_body j (m, a) =
          (None, write_to_file m (fst (snd (job_apply j a))) Success, snd (snd (job_apply j a)))
        \<and> success_json (fst (snd (apply_jobs_body j (m, a)))) =
            append_record (record_of (fst (snd (job_apply j a)))) (success_json m)
        \<and> failed_json (fst (snd (apply_jobs_body j (m, a)))) = failed_json m
        \<and> skipped_json (fst (snd (apply_jobs_body j (m, a)))) = skipped_json m"
    by (cases "job_apply j a") (auto simp add: apply_jobs_body_def write_to_file_def)
  have retry: "1 \<le> executions (calls (snd (snd (job_apply j a)))) - ?k
   \<and> executions (calls (snd (snd (job_apply j a)))) - ?k \<le> 3
   \<and> calls (snd (snd (job_apply j a))) =
       calls a @ Execute_job_apply #
         concat (replicate (executions (calls (snd (snd (job_apply j a)))) - ?k - 1)
           [Sleep_uniform 2 5, Execute_job_apply])
   \<and> (\<forall>i. i < executions (calls (snd (snd (job_apply j a)))) - ?k - 1 \<longrightarrow>
          raised (attempt_script a (?k + i)) \<noteq> None)
   \<and> ((fst (job_apply j a) = Inr ()) =
        (raised (attempt_script a (executions (calls (snd (snd (job_apply j a)))) - 1)) = None))
   \<and> (\<forall>e. (fst (job_apply j a) = Inl e) =
          (executions (calls (snd (snd (job_apply j a)))) - ?k = 3
           \<and> raised (attempt_script a (?k + 2)) = Some e))"
  proof (cases "raised (attempt_script a ?k)")
    case None
    then show ?thesis
      by (simp add: job_apply_unfold Let_def executions_snoc)
  next
    case first: (Some e0)
    show ?thesis
    proof (cases "raised (attempt_script a (?k + 1))")
      case None
      have run: "job_apply j a =
          (Inr (), attach (attempt_script a (?k + 1)) (attach (attempt_script a ?k) j),
           a\<lparr>calls := calls a @ [Execute_job_apply, Sleep_uniform 2 5, Execute_job_apply]\<rparr>)"
        using first None by (simp add: job_apply_unfold Let_def)
      have n: "executions (calls a @ [Execute_job_apply, Sleep_uniform 2 5, Execute_job_apply])
          = ?k + 2"
        by (simp add: executions_def)
      show ?thesis using first None by (simp add: run n)
    next
      case second: (Some e1)
      have n: "executions (calls a @ [Execute_job_apply, Sleep_uniform 2 5, Execute_job_apply,
            Sleep_uniform 2 5, Execute_job_apply]) = ?k + 3"
        by (simp add: executions_def)
      have before: "\<forall>i. i < (2::nat) \<longrightarrow> raised (attempt_script a (?k + i)) \<noteq> None"
        using first second less_2_cases by fastforce
      show ?thesis
      proof (cases "raised (attempt_script a (?k + 2))")
        case None
        have run: "job_apply j a =
            (Inr (), attach (attempt_script a (?k + 2))
                (attach (attempt_script a (?k + 1)) (attach (attempt_script a ?k) j)),
             a\<lparr>calls := calls a @ [Execute_job_apply, Sleep_uniform 2 5, Execute_job_apply,
                Sleep_uniform 2 5, Execute_job_apply]\<rparr>)"
          using first second None by (simp add: job_apply_unfold Let_def)
        show ?thesis using None before by (simp add: run n replicate_2)
      next
        case third: (Some e2)
        have run: "job_apply j a =
            (Inl e2, attach (attempt_script a (?k + 2))
                (attach (attempt_script a (?k + 1)) (attach (attempt_script a ?k) j)),
             a\<lparr>calls := calls a @ [Execute_job_apply, Sleep_uniform 2 5, Execute_job_apply,
                Sleep_uniform 2 5, Execute_job_apply]\<rparr>)"
          using first second third by (simp add: job_apply_unfold Let_def)
        show ?thesis using third before by (simp add: run n replicate_2)
      qed
    qed
  qed
  show ?thesis using retry caller by blast
qed

theorem job_apply_retries_witness:
  "fst (job_apply acme_job flaky_applier) = Inr ()
   \<and> calls (snd (snd (job_apply acme_job flaky_applier)))
       = [Execute_job_apply, Sleep_uniform 2 5, Execute_job_apply]
   \<and> raised (attempt_script flaky_applier 0) = Some (ExternalError ''timeout'')
   \<and> is_job_suitable keyword_manager acme_job = (Inr True, keyword_manager)
   \<and> apply_method acme_job \<notin> set [''Continue'', ''Applied'', ''Apply'']
   \<and> success_json (fst (snd (apply_jobs_body acme_job (keyword_manager, flaky_applier))))
       = Records [record_of (fst (snd (job_apply acme_job flaky_applier)))]
   \<and> failed_json (fst (snd (apply_jobs_body acme_job (keyword_manager, flaky_applier)))) = Missing
   \<and> skipped_json (fst (snd (apply_jobs_body acme_job (keyword_manager, flaky_applier)))) = Missing"
proof -
  have ok: "fst (job_apply acme_job flaky_applier) = Inr ()"
    by (simp add: job_apply_unfold Let_def flaky_applier_def executions_def)
  have log: "calls (snd (snd (job_apply acme_job flaky_applier)))
       = [Execute_job_apply, Sleep_uniform 2 5, Execute_job_apply]"
    by (simp add: job_apply_unfold Let_def flaky_applier_def executions_def)
  have first: "raised (attempt_script flaky_applier 0) = Some (ExternalError ''timeout'')"
    by (simp add: flaky_applier_def)
  have suitable: "is_job_suitable keyword_manager acme_job = (Inr True, keyword_manager)"
    by (simp add: is_job_suitable_def is_blacklisted_def title_blacklisted_def
          company_blacklisted_def link_seen_def is_already_applied_to_job_def
          is_already_applied_to_company_def matches_job_criteria_def keyword_hits_def
          keyword_manager_def acme_job_def lower_def lower_char_def)
  have applies: "apply_method acme_job \<notin> set [''Continue'', ''Applied'', ''Apply'']"
    by (simp add: acme_job_def)
  have files: "success_json keyword_manager = Missing" "failed_json keyword_manager = Missing"
      "skipped_json keyword_manager = Missing"
    by (simp_all add: keyword_manager_def)
  have "is_job_suitable keyword_manager acme_job = (Inr True, keyword_manager)
        \<and> apply_method acme_job \<notin> set [''Continue'', ''Applied'', ''Apply'']
        \<and> fst (job_apply acme_job flaky_applier) = Inr () \<longrightarrow>
      success_json (fst (snd (apply_jobs_body acme_job (keyword_manager, flaky_applier)))) =
        append_record (record_of (fst (snd (job_apply acme_job flaky_applier))))
          (success_json keyword_manager)
      \<and> failed_json (fst (snd (apply_jobs_body acme_job (keyword_manager, flaky_applier))))
          = failed_json keyword_manager
      \<and> skipped_json (fst (snd (apply_jobs_body acme_job (keyword_manager, flaky_applier))))
          = skipped_json keyword_manager"
    using job_apply_retries [of acme_job flaky_applier keyword_manager] by blast
  then have written:
      "success_json (fst (snd (apply_jobs_body acme_job (keyword_manager, flaky_applier)))) =
        Records [record_of (fst (snd (job_apply acme_job flaky_applier)))]
      \<and> failed_json (fst (snd (apply_jobs_body acme_job (keyword_manager, flaky_applier))))
          = Missing
      \<and> skipped_json (fst (snd (apply_jobs_body acme_job (keyword_manager, flaky_applier))))
          = Missing"
    using ok suitable applies files by simp
  show ?thesis
    using ok log first suitable applies written by blast
qed

section \<open>The premium redirect\<close>

lemma driver_get_log:
  "driver_log (snd (driver_get l b)) = driver_log b @ [Driver_get l]"
  by (simp add: driver_get_def Let_def split: sum.splits)

lemma driver_get_page_after: "page_after (snd (driver_get l b)) = page_after b"
  by (simp add: driver_get_def Let_def split: sum.splits)

lemma navigations_snoc:
  "navigations (es @ [Driver_get l]) = Suc (navigations es)"
  "navigations (es @ [Sleep seconds]) = navigations es"
  by (simp_all add: navigations_def)

lemma sleep_fields:
  "driver_log (sleep seconds b) = driver_log b @ [Sleep seconds]"
  "current_url (sleep seconds b) = current_url b"
  "page_after (sleep seconds b) = page_after b"
  by (simp_all add: sleep_def)

lemma redirect_loop_stop:
  assumes "\<not> (premium url \<and> tries < mx)"
  shows "redirect_loop j mx tries url b = (Inr url, b)"
  by (subst redirect_loop.simps) (simp only: assms if_False)

lemma redirect_loop_step:
  assumes "premium url" "tries < mx"
  shows "redirect_loop j mx tries url b =
     (case driver_get (link j) b of
        (Inl e, b') \<Rightarrow> (Inl e, b')
      | (Inr u, b') \<Rightarrow>
          redirect_loop j mx (tries + 1) (current_url (sleep 2 b')) (sleep 2 b'))"
  by (subst redirect_loop.simps) (simp only: assms simp_thms if_True)

lemma redirect_loop_navigations:
  "navigations (driver_log (snd (redirect_loop j mx tries url b)))
     \<le> navigations (driver_log b) + (mx - tries)"
proof (induction "mx - tries" arbitrary: tries url b)
  case 0
  then have "\<not> (premium url \<and> tries < mx)" by simp
  then show ?case by (simp add: redirect_loop_stop)
next
  case (Suc n)
  show ?case
  proof (cases "premium url \<and> tries < mx")
    case False
    then show ?thesis by (simp add: redirect_loop_stop)
  next
    case True
    then have step: "redirect_loop j mx tries url b =
       (case driver_get (link j) b of
          (Inl e, b') \<Rightarrow> (Inl e, b')
        | (Inr u, b') \<Rightarrow>
            redirect_loop j mx (tries + 1) (current_url (sleep 2 b')) (sleep 2 b'))"
      by (simp add: redirect_loop_step)
    obtain r b1 where g: "driver_get (link j) b = (r, b1)"
      by (cases "driver_get (link j) b") auto
    have log1: "driver_log b1 = driver_log b @ [Driver_get (link j)]"
      using driver_get_log [of "link j" b] g by simp
    show ?thesis
    proof (cases r)
      case (Inl e)
      then show ?thesis using True g log1 by (auto simp add: step navigations_snoc)
    next
      case (Inr u)
      have m: "n = mx - (tries + 1)" using Suc.hyps(2) by arith
      have ih: "navigations (driver_log (snd (redirect_loop j mx (tries + 1)
                  (current_url (sleep 2 b1)) (sleep 2 b1))))
                \<le> navigations (driver_log (sleep 2 b1)) + (mx - (tries + 1))"
        using Suc.hyps(1) [OF m] .
      have "navigations (driver_log (sleep 2 b1)) = Suc (navigations (driver_log b))"
        by (simp add: sleep_fields log1 navigations_def)
      then show ?thesis using True g Inr ih by (auto simp add: step)
    qed
  qed
qed

lemma redirect_loop_final_url:
  "redirect_loop j mx tries url b = (Inr url', b') \<Longrightarrow>
   (url' = url \<and> b' = b) \<or> url' = current_url b'"
proof (induction "mx - tries" arbitrary: tries url b)
  case 0
  then have "\<not> (premium url \<and> tries < mx)" by simp
  then show ?case using "0.prems" by (simp add: redirect_loop_stop)
next
  case (Suc n)
  show ?case
  proof (cases "premium url \<and> tries < mx")
    case False
    then show ?thesis using Suc.prems by (simp add: redirect_loop_stop)
  next
    case True
    then have step: "redirect_loop j mx tries url b =
       (case driver_get (link j) b of
          (Inl e, b') \<Rightarrow> (Inl e, b')
        | (Inr u, b') \<Rightarrow>
            redirect_loop j mx (tries + 1) (current_url (sleep 2 b')) (sleep 2 b'))"
      by (simp add: redirect_loop_step)
    obtain r b1 where g: "driver_get (link j) b = (r, b1)"
      by (cases "driver_get (link j) b") auto
    show ?thesis
    proof (cases r)
      case (Inl e)
      then show ?thesis using g Suc.prems by (simp add: step)
    next
      case (Inr u)
      have m: "n = mx - (tries + 1)" using Suc.hyps(2) by arith
      have rest: "redirect_loop j mx (tries + 1) (current_url (sleep 2 b1)) (sleep 2 b1)
                    = (Inr url', b')"
        using g Inr Suc.prems by (simp add: step)
      have "(url' = current_url (sleep 2 b1) \<and> b' = sleep 2 b1) \<or> url' = current_url b'"
        using Suc.hyps(1) [OF m rest] .
      then show ?thesis by auto
    qed
  qed
qed

lemma check_off_premium:
  assumes "\<not> premium (current_url b)"
  shows "check_for_premium_redirect j mx b = (Inr (), b)"
  using assms by (simp add: check_for_premium_redirect_def redirect_loop_stop)

lemma driver_get_lands:
  assumes "page_after b (navigations (driver_log b)) = Inr u"
  shows "driver_get l b = (Inr (), b\<lparr>current_url := u, driver_log := driver_log b @ [Driver_get l]\<rparr>)"
  using assms by (simp add: driver_get_def Let_def)

lemma redirect_loop_lands:
  assumes "premium url" "tries < mx" "page_after b (navigations (driver_log b)) = Inr u"
  shows "redirect_loop j mx tries url b =
     redirect_loop j mx (tries + 1) u
       (b\<lparr>current_url := u, driver_log := driver_log b @ [Driver_get (link j), Sleep 2]\<rparr>)"
  using assms by (simp add: redirect_loop_step driver_get_lands sleep_def)

lemma check_one_navigation:
  assumes "premium (current_url b)" "page_after b (navigations (driver_log b)) = Inr u1"
    "\<not> premium u1"
  shows "check_for_premium_redirect j 3 b =
     (Inr (), b\<lparr>current_url := u1, driver_log := driver_log b @ [Driver_get (link j), Sleep 2]\<rparr>)"
  using assms
  by (simp add: check_for_premium_redirect_def redirect_loop_lands redirect_loop_stop)

lemma check_three_navigations:
  assumes "premium (current_url b)"
    "page_after b (navigations (driver_log b)) = Inr u1" "premium u1"
    "page_after b (navigations (driver_log b) + 1) = Inr u2" "premium u2"
    "page_after b (navigations (driver_log b) + 2) = Inr u3" "premium u3"
  shows "check_for_premium_redirect j 3 b =
     (Inl (PremiumRedirectError 3),
      b\<lparr>current_url := u3, driver_log := driver_log b @
           [Driver_get (link j), Sleep 2, Driver_get (link j), Sleep 2,
            Driver_get (link j), Sleep 2]\<rparr>)"
proof -
  let ?b1 = "b\<lparr>current_url := u1, driver_log := driver_log b @ [Driver_get (link j), Sleep 2]\<rparr>"
  let ?b2 = "?b1\<lparr>current_url := u2, driver_log := driver_log ?b1 @ [Driver_get (link j), Sleep 2]\<rparr>"
  let ?b3 = "?b2\<lparr>current_url := u3, driver_log := driver_log ?b2 @ [Driver_get (link j), Sleep 2]\<rparr>"
  have s1: "redirect_loop j 3 0 (current_url b) b = redirect_loop j 3 (0 + 1) u1 ?b1"
    using assms(1,2) by (intro redirect_loop_lands) simp_all
  have p1: "page_after ?b1 (navigations (driver_log ?b1)) = Inr u2"
    using assms(4) by (simp add: navigations_def)
  have s2: "redirect_loop j 3 (0 + 1) u1 ?b1 = redirect_loop j 3 (0 + 1 + 1) u2 ?b2"
    using assms(3) p1 by (intro redirect_loop_lands) simp_all
  have p2: "page_after ?b2 (navigations (driver_log ?b2)) = Inr u3"
    using assms(6) by (simp add: navigations_def)
  have s3: "redirect_loop j 3 (0 + 1 + 1) u2 ?b2 = redirect_loop j 3 (0 + 1 + 1 + 1) u3 ?b3"
    using assms(5) p2 by (intro redirect_loop_lands) simp_all
  have s4: "redirect_loop j 3 (0 + 1 + 1 + 1) u3 ?b3 = (Inr u3, ?b3)"
    by (rule redirect_loop_stop) simp
  have "redirect_loop j 3 0 (current_url b) b = (Inr u3, ?b3)"
    using s1 s2 s3 s4 by simp
  then show ?thesis using assms(7) by (simp add: check_for_premium_redirect_def)
qed

lemma check_navigations_bound:
  "navigations (driver_log (snd (check_for_premium_redirect j mx b)))
     \<le> navigations (driver_log b) + mx"
proof -
  obtain r b' where l: "redirect_loop j mx 0 (current_url b) b = (r, b')"
    by (cases "redirect_loop j mx 0 (current_url b) b") auto
  have "navigations (driver_log b') \<le> navigations (driver_log b) + mx"
    using redirect_loop_navigations [of j mx 0 "current_url b" b] l by simp
  then show ?thesis using l
    by (cases r) (simp_all add: check_for_premium_redirect_def)
qed

lemma check_returns_off_premium:
  assumes "fst (check_for_premium_redirect j mx b) = Inr ()"
  shows "\<not> premium (current_url (snd (check_for_premium_redirect j mx b)))"
proof -
  obtain r b' where l: "redirect_loop j mx 0 (current_url b) b = (r, b')"
    by (cases "redirect_loop j mx 0 (current_url b) b") auto
  show ?thesis
  proof (cases r)
    case (Inl e)
    then show ?thesis using assms l by (simp add: check_for_premium_redirect_def)
  next
    case (Inr url)
    have "(url = current_url b \<and> b' = b) \<or> url = current_url b'"
      using redirect_loop_final_url [of j mx 0 "current_url b" b url b'] l Inr by simp
    then have u: "url = current_url b'" by auto
    have "\<not> premium url"
      using assms l Inr by (simp add: check_for_premium_redirect_def split: if_splits)
    then show ?thesis using l Inr u
      by (simp add: check_for_premium_redirect_def)
  qed
qed

text \<open>
  C7. With the default of three attempts, \<open>check_for_premium_redirect\<close> does nothing
  and returns when the current URL is not a premium URL. When it is one, the check
  navigates to the link of the job and sleeps, and looks again: if the browser is off the
  premium page after the first navigation the check returns after that one navigation;
  if the browser is still on a premium page after each of three navigations the check
  raises its error after exactly these three. In every case it navigates at most three
  times, and it returns normally only with the browser off the premium page.
\<close>

theorem check_for_premium_redirect_attempts:
  "(\<not> premium (current_url b) \<longrightarrow> check_for_premium_redirect j 3 b = (Inr (), b))
   \<and> (premium (current_url b)
        \<and> page_after b (navigations (driver_log b)) = Inr u1 \<and> premium u1
        \<and> page_after b (navigations (driver_log b) + 1) = Inr u2 \<and> premium u2
        \<and> page_after b (navigations (driver_log b) + 2) = Inr u3 \<and> premium u3
       \<longrightarrow> check_for_premium_redirect j 3 b =
            (Inl (PremiumRedirectError 3),
             b\<lparr>current_url := u3,
               driver_log := driver_log b @
                 [Driver_get (link j), Sleep 2, Driver_get (link j), Sleep 2,
                  Driver_get (link j), Sleep 2]\<rparr>))
   \<and> (premium (current_url b)
        \<and> page_after b (navigations (driver_log b)) = Inr v \<and> \<not> premium v
       \<longrightarrow> check_for_premium_redirect j 3 b =
            (Inr (), b\<lparr>current_url := v,
                      driver_log := driver_log b @ [Driver_get (link j), Sleep 2]\<rparr>))
   \<and> navigations (driver_log (snd (check_for_premium_redirect j 3 b)))
        \<le> navigations (driver_log b) + 3
   \<and> (fst (check_for_premium_redirect j 3 b) = Inr ()
        \<longrightarrow> \<not> premium (current_url (snd (check_for_premium_redirect j 3 b))))"
  using check_off_premium [of b j 3] check_three_navigations [of b u1 u2 u3 j]
    check_one_navigation [of b v j] check_navigations_bound [of j 3 b]
    check_returns_off_premium [of j 3 b]
  by blast

theorem check_for_premium_redirect_attempts_witness:
  "premium (current_url stuck_browser)
   \<and> check_for_premium_redirect acme_job 3 stuck_browser =
       (Inl (PremiumRedirectError 3),
        stuck_browser\<lparr>current_url := ''https://www.linkedin.com/premium/products'',
          driver_log := [Driver_get (link acme_job), Sleep 2, Driver_get (link acme_job), Sleep 2,
                  Driver_get (link acme_job), Sleep 2]\<rparr>)
   \<and> \<not> premium (current_url job_page_browser)
   \<and> check_for_premium_redirect acme_job 3 job_page_browser = (Inr (), job_page_browser)"
proof -
  have p: "premium ''https://www.linkedin.com/premium/products''"
    by (simp add: premium_def)
  have q: "\<not> premium ''https://www.linkedin.com/jobs/view/1''"
    by (simp add: premium_def)
  have stuck: "premium (current_url stuck_browser)"
      "page_after stuck_browser (navigations (driver_log stuck_browser))
         = Inr ''https://www.linkedin.com/premium/products''"
      "page_after stuck_browser (navigations (driver_log stuck_browser) + 1)
         = Inr ''https://www.linkedin.com/premium/products''"
      "page_after stuck_browser (navigations (driver_log stuck_browser) + 2)
         = Inr ''https://www.linkedin.com/premium/products''"
      "driver_log stuck_browser = []"
    using p by (simp_all add: stuck_browser_def)
  have quiet: "\<not> premium (current_url job_page_browser)"
    using q by (simp add: job_page_browser_def)
  have raised: "check_for_premium_redirect acme_job 3 stuck_browser =
       (Inl (PremiumRedirectError 3),
        stuck_browser\<lparr>current_url := ''https://www.linkedin.com/premium/products'',
          driver_log := driver_log stuck_browser @
                 [Driver_get (link acme_job), Sleep 2, Driver_get (link acme_job), Sleep 2,
                  Driver_get (link acme_job), Sleep 2]\<rparr>)"
    using stuck p
      check_for_premium_redirect_attempts [of stuck_browser acme_job "''https://www.linkedin.com/premium/products''"
        "''https://www.linkedin.com/premium/products''"
        "''https://www.linkedin.com/premium/products''" "[]"]
    by blast
  have returned: "check_for_premium_redirect acme_job 3 job_page_browser = (Inr (), job_page_browser)"
    using quiet check_for_premium_redirect_attempts [of job_page_browser acme_job "[]" "[]" "[]" "[]"] by blast
  show ?thesis using stuck(1) raised quiet returned by (simp add: stuck(5))
qed

section \<open>Outcome records of the apply loop\<close>

lemma attach_fields:
  "title (attach t j) = title j" "company (attach t j) = company j"
  "link (attach t j) = link j" "location (attach t j) = location j"
  by (simp_all add: attach_def set_job_description_def set_recruiter_link_def
        split: option.splits)

lemma job_apply_fields:
  "title (fst (snd (job_apply j a))) = title j"
  "company (fst (snd (job_apply j a))) = company j"
  "link (fst (snd (job_apply j a))) = link j"
  "location (fst (snd (job_apply j a))) = location j"
  by (simp_all add: job_apply_unfold Let_def attach_fields split: option.splits)

lemma append_record_changes: "append_record r f \<noteq> f"
  by (cases f) simp_all

lemma log_of_write_to_file:
  "log_of file_name (write_to_file m j file_name) = append_record (record_of j) (log_of file_name m)"
  "other \<noteq> file_name \<Longrightarrow> log_of other (write_to_file m j file_name) = log_of other m"
  by (cases file_name; cases other; simp add: log_of_def write_to_file_def)+

lemma written_once:
  assumes "title j' = title j" "company j' = company j" "link j' = link j"
    "location j' = location j"
  shows "\<exists>r. r_company r = company j \<and> r_job_title r = title j \<and> r_link r = link j
           \<and> r_job_location r = location j
           \<and> log_of file_name (write_to_file m j' file_name) = append_record r (log_of file_name m)
           \<and> log_of file_name (write_to_file m j' file_name) \<noteq> log_of file_name m
           \<and> (\<forall>other. other \<noteq> file_name \<longrightarrow>
                 log_of other (write_to_file m j' file_name) = log_of other m)"
proof -
  have "r_company (record_of j') = company j \<and> r_job_title (record_of j') = title j
        \<and> r_link (record_of j') = link j \<and> r_job_location (record_of j') = location j"
    using assms by (simp add: record_of_def)
  then show ?thesis
    using log_of_write_to_file append_record_changes
    by (intro exI [of _ "record_of j'"]) simp
qed

text \<open>
  C2, amended. Take a job on which the body of the apply loop does not leave the loop with
  an exception. If the job passes the eligibility filter and its apply method is one of
  \<open>Continue\<close>, \<open>Applied\<close>, \<open>Apply\<close>, the body writes nothing. Otherwise exactly
  one of the three logs receives one record, with the company, title, link and location
  of the job, and the two other logs stay as they were: the skipped log when the filter
  rejects the job, the success log when \<open>job_apply\<close> returns, the failed log when it
  raises.
\<close>

theorem apply_jobs_body_one_record:
  assumes "fst (apply_jobs_body j (m, a)) = None"
  shows "(fst (is_job_suitable m j) = Inr True
            \<and> apply_method j \<in> set [''Continue'', ''Applied'', ''Apply'']
          \<longrightarrow> fst (snd (apply_jobs_body j (m, a))) = m)
       \<and> (\<not> (fst (is_job_suitable m j) = Inr True
               \<and> apply_method j \<in> set [''Continue'', ''Applied'', ''Apply''])
          \<longrightarrow> (\<exists>r. r_company r = company j \<and> r_job_title r = title j \<and> r_link r = link j
                 \<and> r_job_location r = location j
                 \<and> log_of (if fst (is_job_suitable m j) = Inr False then Skipped
                            else if fst (job_apply j a) = Inr () then Success else Failed)
                      (fst (snd (apply_jobs_body j (m, a))))
                    = append_record r
                        (log_of (if fst (is_job_suitable m j) = Inr False then Skipped
                                 else if fst (job_apply j a) = Inr () then Success else Failed) m)
                 \<and> log_of (if fst (is_job_suitable m j) = Inr False then Skipped
                            else if fst (job_apply j a) = Inr () then Success else Failed)
                      (fst (snd (apply_jobs_body j (m, a))))
                    \<noteq> log_of (if fst (is_job_suitable m j) = Inr False then Skipped
                               else if fst (job_apply j a) = Inr () then Success else Failed) m
                 \<and> (\<forall>other. other \<noteq> (if fst (is_job_suitable m j) = Inr False then Skipped
                                         else if fst (job_apply j a) = Inr () then Success
                                         else Failed)
                      \<longrightarrow> log_of other (fst (snd (apply_jobs_body j (m, a)))) = log_of other m)))"
proof -
  consider (pass) "is_job_suitable m j = (Inr True, m)"
    | (skip) "is_job_suitable m j = (Inr False, write_to_file m j Skipped)"
    | (crash) "is_job_suitable m j = (Inl ZeroDivisionError, m)"
    using is_job_suitable_cases [of m j] by blast
  then show ?thesis
  proof cases
    case crash
    then have "fst (apply_jobs_body j (m, a)) = Some ZeroDivisionError"
      by (simp add: apply_jobs_body_def)
    then show ?thesis using assms by simp
  next
    case skip
    have body: "apply_jobs_body j (m, a) = (None, write_to_file m j Skipped, a)"
      using skip by (simp add: apply_jobs_body_def)
    show ?thesis
      using written_once [of j j Skipped m] by (simp add: body skip)
  next
    case pass
    show ?thesis
    proof (cases "apply_method j \<in> set [''Continue'', ''Applied'', ''Apply'']")
      case True
      then have "apply_jobs_body j (m, a) = (None, m, a)"
        using pass by (simp add: apply_jobs_body_def)
      then show ?thesis using pass True by simp
    next
      case False
      obtain r j' a' where run: "job_apply j a = (r, j', a')"
        by (cases "job_apply j a") auto
      have same: "title j' = title j" "company j' = company j" "link j' = link j"
          "location j' = location j"
        using job_apply_fields [of j a] run by simp_all
      show ?thesis
      proof (cases r)
        case (Inr u)
        have body: "apply_jobs_body j (m, a) = (None, write_to_file m j' Success, a')"
          using pass False run Inr by (simp add: apply_jobs_body_def)
        show ?thesis
          using written_once [OF same, of Success m] False
          by (simp add: body pass run Inr)
      next
        case (Inl e)
        have body: "apply_jobs_body j (m, a) = (None, write_to_file m j' Failed, a')"
          using pass False run Inl by (simp add: apply_jobs_body_def)
        show ?thesis
          using written_once [OF same, of Failed m] False
          by (simp add: body pass run Inl)
      qed
    qed
  qed
qed

text \<open>
  C2 as stated fails for a job that passes the eligibility filter and whose apply
  method is \<open>Applied\<close>: the loop body does not crash and none of the three logs
  receives a record.
\<close>

theorem apply_jobs_body_applied_job_unrecorded:
  "fst (is_job_suitable keyword_manager applied_job) = Inr True
   \<and> fst (apply_jobs_body applied_job (keyword_manager, flaky_applier)) = None
   \<and> fst (snd (apply_jobs_body applied_job (keyword_manager, flaky_applier))) = keyword_manager
   \<and> success_json (fst (snd (apply_jobs_body applied_job (keyword_manager, flaky_applier))))
       = Missing
   \<and> failed_json (fst (snd (apply_jobs_body applied_job (keyword_manager, flaky_applier))))
       = Missing
   \<and> skipped_json (fst (snd (apply_jobs_body applied_job (keyword_manager, flaky_applier))))
       = Missing"
proof -
  have suitable: "is_job_suitable keyword_manager applied_job = (Inr True, keyword_manager)"
    by (simp add: is_job_suitable_def is_blacklisted_def title_blacklisted_def
          company_blacklisted_def link_seen_def is_already_applied_to_job_def
          is_already_applied_to_company_def matches_job_criteria_def keyword_hits_def
          keyword_manager_def applied_job_def lower_def lower_char_def)
  have gate: "apply_method applied_job \<in> set [''Continue'', ''Applied'', ''Apply'']"
    by (simp add: applied_job_def)
  have body: "apply_jobs_body applied_job (keyword_manager, flaky_applier)
      = (None, keyword_manager, flaky_applier)"
    using suitable gate by (simp add: apply_jobs_body_def)
  have files: "success_json keyword_manager = Missing" "failed_json keyword_manager = Missing"
      "skipped_json keyword_manager = Missing"
    by (simp_all add: keyword_manager_def)
  show ?thesis using suitable files by (simp add: body)
qed

theorem apply_jobs_body_one_record_witness:
  "fst (apply_jobs_body acme_job (keyword_manager, flaky_applier)) = None
   \<and> fst (is_job_suitable keyword_manager acme_job) = Inr True
   \<and> apply_method acme_job \<notin> set [''Continue'', ''Applied'', ''Apply'']
   \<and> fst (job_apply acme_job flaky_applier) = Inr ()
   \<and> (\<exists>r. r_company r = company acme_job \<and> r_job_title r = title acme_job
          \<and> r_link r = link acme_job \<and> r_job_location r = location acme_job
          \<and> log_of Success (fst (snd (apply_jobs_body acme_job (keyword_manager, flaky_applier))))
              = append_record r (log_of Success keyword_manager))
   \<and> log_of Failed (fst (snd (apply_jobs_body acme_job (keyword_manager, flaky_applier))))
       = log_of Failed keyword_manager
   \<and> log_of Skipped (fst (snd (apply_jobs_body acme_job (keyword_manager, flaky_applier))))
       = log_of Skipped keyword_manager"
proof -
  have suitable: "is_job_suitable keyword_manager acme_job = (Inr True, keyword_manager)"
    by (simp add: is_job_suitable_def is_blacklisted_def title_blacklisted_def
          company_blacklisted_def link_seen_def is_already_applied_to_job_def
          is_already_applied_to_company_def matches_job_criteria_def keyword_hits_def
          keyword_manager_def acme_job_def lower_def lower_char_def)
  have applies: "apply_method acme_job \<notin> set [''Continue'', ''Applied'', ''Apply'']"
    by (simp add: acme_job_def)
  have ok: "fst (job_apply acme_job flaky_applier) = Inr ()"
    by (simp add: job_apply_unfold Let_def flaky_applier_def executions_def)
  have alive: "fst (apply_jobs_body acme_job (keyword_manager, flaky_applier)) = None"
    using suitable by (simp add: apply_jobs_body_def split: prod.splits sum.splits)
  have chosen: "(if fst (is_job_suitable keyword_manager acme_job) = Inr False then Skipped
       else if fst (job_apply acme_job flaky_applier) = Inr () then Success else Failed) = Success"
    using suitable ok by simp
  have "\<exists>r. r_company r = company acme_job \<and> r_job_title r = title acme_job
          \<and> r_link r = link acme_job \<and> r_job_location r = location acme_job
          \<and> log_of Success (fst (snd (apply_jobs_body acme_job (keyword_manager, flaky_applier))))
              = append_record r (log_of Success keyword_manager)
          \<and> log_of Success (fst (snd (apply_jobs_body acme_job (keyword_manager, flaky_applier))))
              \<noteq> log_of Success keyword_manager
          \<and> (\<forall>other. other \<noteq> Success \<longrightarrow>
                log_of other (fst (snd (apply_jobs_body acme_job (keyword_manager, flaky_applier))))
                  = log_of other keyword_manager)"
    using apply_jobs_body_one_record [OF alive] suitable applies unfolding chosen by simp
  then show ?thesis using alive suitable applies ok by auto
qed

end
